theory Spec2Isabelle
  imports Complex_Main "HOL-Library.Word"
begin

unbundle bit_operations_syntax

section \<open>Spiking synapses: the per-edge store (AllSpikingSynapses.h)\<close>

text \<open>
  \<^verbatim>\<open>AllSpikingSynapses.h\<close> declares six per-synapse arrays, all indexed by the flat
  synapse index \<^verbatim>\<open>iSyn\<close>: \<^verbatim>\<open>BGFLOAT *decay\<close>, \<^verbatim>\<open>BGFLOAT *tau\<close>, \<^verbatim>\<open>int *total_delay\<close>,
  \<^verbatim>\<open>uint32_t *delayQueue\<close>, \<^verbatim>\<open>int *delayIdx\<close> and \<^verbatim>\<open>int *ldelayQueue\<close>. One slot of
  these arrays is a record. \<^verbatim>\<open>BGFLOAT\<close> is read as a real number; the delay-queue word
  has the width of \<^verbatim>\<open>uint32_t\<close>.
\<close>

record synapse =
  decay :: real
  tau :: real
  total_delay :: int
  delayQueue :: "32 word"
  delayIdx :: int
  ldelayQueue :: int

text \<open>
  \<^verbatim>\<open>#define BYTES_OF_DELAYQUEUE  ( sizeof(uint32_t) / sizeof(uint8_t) )\<close> and
  \<^verbatim>\<open>#define LENGTH_OF_DELAYQUEUE ( BYTES_OF_DELAYQUEUE * 8 )\<close>.
\<close>

definition BYTES_OF_DELAYQUEUE :: int where
  "BYTES_OF_DELAYQUEUE = 4 div 1"

definition LENGTH_OF_DELAYQUEUE :: int where
  "LENGTH_OF_DELAYQUEUE = BYTES_OF_DELAYQUEUE * 8"

text \<open>The failures the synapse operations can signal.\<close>

datatype synapse_error = Overrun | DecayNotUpdated

subsection \<open>Delay queue\<close>

text \<open>
  Modelled from the spec: the body of \<^verbatim>\<open>preSpikeHit\<close> is missing (the header only
  declares it). The spec's \<^verbatim>\<open>scheduleArrival\<close> sets the bit at position
  \<^verbatim>\<open>(delayIndex + total_delay) mod queueLength\<close>; calling it on a filled slot is
  flagged as an overrun error rather than silently overwritten.
\<close>

definition scheduleArrival :: "synapse \<Rightarrow> synapse_error + synapse" where
  "scheduleArrival s =
     (let idx = (delayIdx s + total_delay s) mod ldelayQueue s
      in if bit (delayQueue s) (nat idx) then Inl Overrun
         else Inr (s\<lparr>delayQueue := set_bit (nat idx) (delayQueue s)\<rparr>))"

text \<open>
  Modelled from the spec: \<^verbatim>\<open>preSpikeHit(iSyn)\<close> is invoked by the upstream node's
  spike emission and calls \<^verbatim>\<open>scheduleArrival\<close>; its body is missing.
\<close>

definition preSpikeHit :: "synapse \<Rightarrow> synapse_error + synapse" where
  "preSpikeHit s = scheduleArrival s"

text \<open>
  Modelled from the spec: the body of \<^verbatim>\<open>isSpikeQueue\<close> is missing. The spec's
  \<^verbatim>\<open>isEventDue\<close> tests the bit at the current \<^verbatim>\<open>delayIndex\<close>, read-only.
\<close>

definition isEventDue :: "synapse \<Rightarrow> bool" where
  "isEventDue s = bit (delayQueue s) (nat (delayIdx s))"

text \<open>
  Modelled from the spec: the code that advances the queue is missing. The spec's
  \<^verbatim>\<open>advance\<close> clears the bit at the current \<^verbatim>\<open>delayIndex\<close> and increments
  \<^verbatim>\<open>delayIndex\<close> modulo \<^verbatim>\<open>queueLength\<close>.
\<close>

definition advance :: "synapse \<Rightarrow> synapse" where
  "advance s =
     s\<lparr>delayQueue := unset_bit (nat (delayIdx s)) (delayQueue s),
       delayIdx := (delayIdx s + 1) mod ldelayQueue s\<rparr>"

text \<open>
  The data model's conditions on the queue of one slot: the cursor lies inside the ring
  (it wraps modulo the queue length), and the ring fits into the word (one bit per slot,
  \<^verbatim>\<open>LENGTH_OF_DELAYQUEUE\<close> bits).
\<close>

definition queue_ok :: "synapse \<Rightarrow> bool" where
  "queue_ok s \<longleftrightarrow>
     0 \<le> delayIdx s \<and> delayIdx s < ldelayQueue s \<and> ldelayQueue s \<le> LENGTH_OF_DELAYQUEUE"

subsection \<open>Decay model\<close>

text \<open>
  Modelled from the spec: the body of \<^verbatim>\<open>updateDecay\<close> is missing. The spec has
  \<^verbatim>\<open>decay = f(tau, deltaT)\<close>, an exponential-decay relation with
  \<^verbatim>\<open>decay = exp(-1/10)\<close> at \<^verbatim>\<open>tau = 10, deltaT = 1\<close>, recomputed by
  \<^verbatim>\<open>updateDecay(iSyn, deltaT)\<close>, which returns a failure indicator if \<^verbatim>\<open>tau <= 0\<close>.
  The result pairs the returned flag with the slot after the call.
\<close>

definition updateDecay :: "real \<Rightarrow> synapse \<Rightarrow> bool \<times> synapse" where
  "updateDecay deltaT s =
     (if tau s \<le> 0 then (False, s)
      else (True, s\<lparr>decay := exp (- deltaT / tau s)\<rparr>))"

text \<open>
  Modelled from the spec: the body of \<^verbatim>\<open>initSpikeQueue\<close> is missing. A reset clears
  the delay queue and its index.
\<close>

definition initSpikeQueue :: "synapse \<Rightarrow> synapse" where
  "initSpikeQueue s = s\<lparr>delayQueue := 0, delayIdx := 0\<rparr>"

text \<open>
  Modelled from the spec: the body of \<^verbatim>\<open>resetSynapse\<close> is missing. The spec's
  \<^verbatim>\<open>resetEdge(iSyn, deltaT)\<close> recomputes \<^verbatim>\<open>decay\<close> from the current \<^verbatim>\<open>tau\<close> and
  \<^verbatim>\<open>deltaT\<close> and clears the delay queue and its index; a decay update with a
  non-positive time constant is surfaced immediately.
\<close>

definition resetSynapse :: "real \<Rightarrow> synapse \<Rightarrow> synapse_error + synapse" where
  "resetSynapse deltaT s =
     (case updateDecay deltaT s of
        (ok, s') \<Rightarrow> if ok then Inr (initSpikeQueue s') else Inl DecayNotUpdated)"

section \<open>Static connections (ConnStatic.cpp)\<close>

text \<open>The three members the constructor initialises and \<^verbatim>\<open>readParameters\<close> sets.\<close>

record ConnStatic =
  threshConnsRadius :: real
  nConnsPerNeuron :: int
  pRewiring :: real

text \<open>\<^verbatim>\<open>ConnStatic::ConnStatic()\<close>\<close>

definition ConnStatic_new :: ConnStatic where
  "ConnStatic_new = \<lparr>threshConnsRadius = 0, nConnsPerNeuron = 0, pRewiring = 0\<rparr>"

subsection \<open>readParameters\<close>

text \<open>
  The XML element is a TinyXML object (not part of these sources); it is given by what the
  calls made on it answer: \<^verbatim>\<open>ValueStr()\<close>, and for each attribute name the outcome of
  the query, \<open>Some v\<close> when the query returns \<^verbatim>\<open>TIXML_SUCCESS\<close> and stores \<open>v\<close>, \<open>None\<close>
  when it returns anything else and stores nothing.
\<close>

record TiXmlElement =
  ValueStr :: string
  QueryIntAttribute :: "string \<Rightarrow> int option"
  QueryFLOATAttribute :: "string \<Rightarrow> real option"

datatype ParseParamError = ParseParamError string string

text \<open>
  \<^verbatim>\<open>bool ConnStatic::readParameters(const TiXmlElement& element)\<close>. A query writes the
  member before the range check, so the object is returned as it stands when the exception
  leaves; \<open>Inl\<close> is the thrown exception, \<open>Inr\<close> the returned value.
\<close>

definition readParameters :: "TiXmlElement \<Rightarrow> ConnStatic \<Rightarrow> ConnStatic \<times> (ParseParamError + bool)" where
  "readParameters element this =
     (if ValueStr element = ''ConnectionsParams'' then
        (case QueryIntAttribute element ''nConnsPerNeuron'' of
           None \<Rightarrow> (this, Inl (ParseParamError ''nConnsPerNeuron''
                      ''Static Connections param 'nConnsPerNeuron' missing in XML.''))
         | Some n \<Rightarrow>
        let this = this\<lparr>nConnsPerNeuron := n\<rparr> in
        if nConnsPerNeuron this < 0 then
          (this, Inl (ParseParamError ''nConnsPerNeuron''
                      ''Invalid negative Growth param 'nConnsPerNeuron' value.''))
        else
        (case QueryFLOATAttribute element ''threshConnsRadius'' of
           None \<Rightarrow> (this, Inl (ParseParamError ''threshConnsRadius''
                      ''Static Connections param 'threshConnsRadius' missing in XML.''))
         | Some r \<Rightarrow>
        let this = this\<lparr>threshConnsRadius := r\<rparr> in
        if threshConnsRadius this < 0 then
          (this, Inl (ParseParamError ''threshConnsRadius''
                      ''Invalid negative Growth param 'threshConnsRadius' value.''))
        else
        (case QueryFLOATAttribute element ''pRewiring'' of
           None \<Rightarrow> (this, Inl (ParseParamError ''pRewiring''
                      ''Static Connections param 'pRewiring' missing in XML.''))
         | Some p \<Rightarrow>
        let this = this\<lparr>pRewiring := p\<rparr> in
        if pRewiring this < 0 \<or> pRewiring this > 1.0 then
          (this, Inl (ParseParamError ''pRewiring''
                      ''Invalid negative Growth param 'pRewiring' value.''))
        else (this, Inr True))))
      else (this, Inr True))"

subsection \<open>setupConnections\<close>

text \<open>
  What \<^verbatim>\<open>setupConnections\<close> reads from its arguments: \<^verbatim>\<open>sim_info->totalNeurons\<close> and
  \<^verbatim>\<open>sim_info->deltaT\<close>; the distance matrix \<^verbatim>\<open>(*layout->dist)(src, dest)\<close> and
  \<^verbatim>\<open>layout->synType(src, dest)\<close>. The synapse type enumeration is declared elsewhere and
  stays a type parameter.
\<close>

record SimulationInfo =
  totalNeurons :: int
  deltaT :: real

record 'ty Layout =
  dist_matrix :: "int \<Rightarrow> int \<Rightarrow> real"
  synType :: "int \<Rightarrow> int \<Rightarrow> 'ty"

text \<open>\<^verbatim>\<open>struct DistDestNeuron\<close>: a candidate destination with its distance.\<close>

record DistDestNeuron =
  dist_d :: real
  dest_neuron :: int

text \<open>
  \<^verbatim>\<open>synapses->addSynapse(iSyn, type, src_neuron, dest_neuron, sum_point, deltaT)\<close> is a
  call into the synapse store. The store is seen through the sequence of these calls;
  \<^verbatim>\<open>sum_point\<close> is the address of \<^verbatim>\<open>summation_map[dest_neuron]\<close>, kept as the index.
\<close>

record 'ty addSynapse =
  arg_type :: 'ty
  arg_src_neuron :: int
  arg_dest_neuron :: int
  arg_sum_point :: int
  arg_deltaT :: real

text \<open>
  The inner loop \<^verbatim>\<open>for (int dest_neuron = 0; dest_neuron < num_neurons; dest_neuron++)\<close>:
  pick the connections shorter than \<^verbatim>\<open>threshConnsRadius\<close>.
\<close>

function dest_loop ::
  "'ty Layout \<Rightarrow> real \<Rightarrow> int \<Rightarrow> int \<Rightarrow> int \<Rightarrow> DistDestNeuron list \<Rightarrow> DistDestNeuron list" where
  "dest_loop layout thresh num_neurons src dest distDestNeurons =
     (if dest < num_neurons then
        dest_loop layout thresh num_neurons src (dest + 1)
          (if src \<noteq> dest then
             (let d = dist_matrix layout src dest
              in if d \<le> thresh
                 then distDestNeurons @ [\<lparr>dist_d = d, dest_neuron = dest\<rparr>]
                 else distDestNeurons)
           else distDestNeurons)
      else distDestNeurons)"
  by pat_completeness auto
termination
  by (relation "measure (\<lambda>(layout, thresh, num_neurons, src, dest, ds). nat (num_neurons - dest))") auto

text \<open>
  The loop \<^verbatim>\<open>for (int i = 0; i < distDestNeurons[src_neuron].size() && i < nConnsPerNeuron; i++)\<close>:
  pick the shortest \<^verbatim>\<open>nConnsPerNeuron\<close> connections. The state is the sequence of
  \<^verbatim>\<open>addSynapse\<close> calls so far and the counter \<^verbatim>\<open>added\<close>. The comparison with
  \<^verbatim>\<open>size()\<close> is unsigned, so a negative \<^verbatim>\<open>i\<close> would not pass it.
\<close>

function create_loop ::
  "'ty Layout \<Rightarrow> SimulationInfo \<Rightarrow> int \<Rightarrow> int \<Rightarrow> DistDestNeuron list \<Rightarrow> int
     \<Rightarrow> 'ty addSynapse list \<times> int \<Rightarrow> 'ty addSynapse list \<times> int" where
  "create_loop layout sim_info nConns src distDestNeurons i st =
     (if 0 \<le> i \<and> i < int (length distDestNeurons) \<and> i < nConns then
        (let dest = dest_neuron (distDestNeurons ! nat i);
             type = synType layout src dest;
             sum_point = dest
         in create_loop layout sim_info nConns src distDestNeurons (i + 1)
              (fst st @ [\<lparr>arg_type = type, arg_src_neuron = src, arg_dest_neuron = dest,
                          arg_sum_point = sum_point, arg_deltaT = deltaT sim_info\<rparr>],
               snd st + 1))
      else st)"
  by pat_completeness auto
termination
  by (relation "measure (\<lambda>(layout, sim_info, nConns, src, ds, i, st). nat (int (length ds) - i))") auto

text \<open>
  The outer loop \<^verbatim>\<open>for (int src_neuron = 0; src_neuron < num_neurons; src_neuron++)\<close>:
  gather the candidates, sort ascendant, create the synapses. The order of
  \<^verbatim>\<open>DistDestNeuron\<close> is declared in \<^verbatim>\<open>ConnStatic.h\<close>; by the comments (sort ascendant, pick
  the shortest) it compares the distances. \<^verbatim>\<open>std::sort\<close> leaves the order of equal
  distances open; here they stay in candidate order.
\<close>

function src_loop ::
  "ConnStatic \<Rightarrow> SimulationInfo \<Rightarrow> 'ty Layout \<Rightarrow> int
     \<Rightarrow> 'ty addSynapse list \<times> int \<Rightarrow> 'ty addSynapse list \<times> int" where
  "src_loop this sim_info layout src st =
     (if src < totalNeurons sim_info then
        (let ds = dest_loop layout (threshConnsRadius this) (totalNeurons sim_info) src 0 [];
             ds = sort_key dist_d ds
         in src_loop this sim_info layout (src + 1)
              (create_loop layout sim_info (nConnsPerNeuron this) src ds 0 st))
      else st)"
  by pat_completeness auto
termination
  by (relation "measure (\<lambda>(this, sim_info, layout, src, st). nat (totalNeurons sim_info - src))") auto

text \<open>
  \<^verbatim>\<open>void ConnStatic::setupConnections(sim_info, layout, neurons, synapses)\<close>. The result
  holds the \<^verbatim>\<open>addSynapse\<close> calls made on \<^verbatim>\<open>synapses\<close>, and the locals \<^verbatim>\<open>added\<close> and
  \<^verbatim>\<open>nRewiring\<close> as they stand at the end (they are only printed).

  \<^verbatim>\<open>int nRewiring = added * pRewiring;\<close> converts \<^verbatim>\<open>added\<close> to \<^verbatim>\<open>BGFLOAT\<close>, multiplies
  and rounds in \<^verbatim>\<open>BGFLOAT\<close>, and converts the rounded product to \<^verbatim>\<open>int\<close>. \<^verbatim>\<open>BGFLOAT\<close>
  is a macro declared elsewhere and its arithmetic is not modelled: the whole expression
  is the parameter \<open>product_to_int\<close>, a function of \<^verbatim>\<open>added\<close> and \<^verbatim>\<open>pRewiring\<close>.
\<close>

record 'ty setup_result =
  synapses_added :: "'ty addSynapse list"
  added :: int
  nRewiring :: int

definition setupConnections ::
  "(int \<Rightarrow> real \<Rightarrow> int) \<Rightarrow> ConnStatic \<Rightarrow> SimulationInfo \<Rightarrow> 'ty Layout \<Rightarrow> 'ty setup_result" where
  "setupConnections product_to_int this sim_info layout =
     (let st = src_loop this sim_info layout 0 ([], 0);
          n = product_to_int (snd st) (pRewiring this)
      in \<lparr>synapses_added = fst st, added = snd st, nRewiring = n\<rparr>)"

text \<open>The candidates of one source, as the inner loop gathers them.\<close>

definition candidates :: "'ty Layout \<Rightarrow> real \<Rightarrow> int \<Rightarrow> int \<Rightarrow> int list" where
  "candidates layout thresh num_neurons src =
     filter (\<lambda>dest. src \<noteq> dest \<and> dist_matrix layout src dest \<le> thresh) [0..num_neurons - 1]"

text \<open>The loops are unfolded one iteration at a time, by hand.\<close>

declare dest_loop.simps [simp del] create_loop.simps [simp del] src_loop.simps [simp del]

text \<open>
  The \<^verbatim>\<open>addSynapse\<close> call of one iteration of the creation loop, and the calls of one
  source neuron in closed form: the first \<^verbatim>\<open>nConnsPerNeuron\<close> of its candidates in
  ascending distance.
\<close>

definition new_synapse :: "'ty Layout \<Rightarrow> SimulationInfo \<Rightarrow> int \<Rightarrow> DistDestNeuron \<Rightarrow> 'ty addSynapse" where
  "new_synapse layout sim_info src d =
     \<lparr>arg_type = synType layout src (dest_neuron d), arg_src_neuron = src,
      arg_dest_neuron = dest_neuron d, arg_sum_point = dest_neuron d,
      arg_deltaT = deltaT sim_info\<rparr>"

definition created_for :: "ConnStatic \<Rightarrow> SimulationInfo \<Rightarrow> 'ty Layout \<Rightarrow> int \<Rightarrow> 'ty addSynapse list" where
  "created_for this sim_info layout src =
     map (new_synapse layout sim_info src)
       (take (nat (nConnsPerNeuron this))
          (sort_key dist_d
             (map (\<lambda>dest. \<lparr>dist_d = dist_matrix layout src dest, dest_neuron = dest\<rparr>)
                (candidates layout (threshConnsRadius this) (totalNeurons sim_info) src))))"

text \<open>
  A line of three neurons at unit spacing, every pair within the radius, at most one
  connection per neuron; and the element that configures it.
\<close>

definition line_layout :: "unit Layout" where
  "line_layout = \<lparr>dist_matrix = (\<lambda>a b. \<bar>real_of_int a - real_of_int b\<bar>), synType = (\<lambda>a b. ())\<rparr>"

definition line_sim :: SimulationInfo where
  "line_sim = \<lparr>totalNeurons = 3, deltaT = 1\<rparr>"

definition line_conn :: ConnStatic where
  "line_conn = \<lparr>threshConnsRadius = 5, nConnsPerNeuron = 1, pRewiring = 1 / 2\<rparr>"

definition line_element :: TiXmlElement where
  "line_element =
     \<lparr>ValueStr = ''ConnectionsParams'',
      QueryIntAttribute = (\<lambda>name. if name = ''nConnsPerNeuron'' then Some 1 else None),
      QueryFLOATAttribute = (\<lambda>name. if name = ''threshConnsRadius'' then Some 5
                                     else if name = ''pRewiring'' then Some (1 / 2) else None)\<rparr>"

text \<open>
  An instance of \<open>product_to_int\<close>: the product taken exactly, its fraction discarded. It
  is what \<^verbatim>\<open>BGFLOAT\<close> arithmetic gives wherever the product is exact in \<^verbatim>\<open>BGFLOAT\<close>, as
  for the three synapses of the line and a \<^verbatim>\<open>pRewiring\<close> of 0, 1/2 or 1.
\<close>

definition exact_product_to_int :: "int \<Rightarrow> real \<Rightarrow> int" where
  "exact_product_to_int a p =
     (if 0 \<le> real_of_int a * p then \<lfloor>real_of_int a * p\<rfloor> else \<lceil>real_of_int a * p\<rceil>)"

text \<open>The spec's scenario: queue length 4, delay 2, time constant 10, empty queue.\<close>

definition scenario :: synapse where
  "scenario = \<lparr>decay = 1, tau = 10, total_delay = 2, delayQueue = 0, delayIdx = 0, ldelayQueue = 4\<rparr>"

section \<open>Delay queue: scheduling and stepping\<close>

lemma LENGTH_OF_DELAYQUEUE_eq: "LENGTH_OF_DELAYQUEUE = 32"
  by (simp add: LENGTH_OF_DELAYQUEUE_def BYTES_OF_DELAYQUEUE_def)

lemma idx_step: "((d + int k) mod L + 1) mod L = (d + int (Suc k)) mod (L::int)"
  by (simp add: mod_simps ac_simps)

lemma mod_shift_inj:
  assumes "0 \<le> a" "a < L" "0 \<le> b" "b < L" "(d + a) mod L = (d + b) mod (L::int)"
  shows "a = b"
proof -
  from assms(5) have "a mod L = b mod L"
    by (metis mod_add_cong add_diff_cancel_left' mod_diff_cong)
  with assms show ?thesis by simp
qed

lemma slot_eq_iff:
  assumes "0 \<le> a" "a < L" "0 \<le> b" "b < L"
  shows "nat ((d + a) mod L) = nat ((d + b) mod L) \<longleftrightarrow> a = b"
proof
  assume e: "nat ((d + a) mod L) = nat ((d + b) mod L)"
  from assms have "0 \<le> (d + a) mod L" "0 \<le> (d + b) mod L" by simp_all
  with e have "(d + a) mod L = (d + b) mod L" by linarith
  with assms show "a = b" by (rule mod_shift_inj)
qed simp

lemma advance_fields:
  "ldelayQueue (advance u) = ldelayQueue u"
  "delayIdx (advance u) = (delayIdx u + 1) mod ldelayQueue u"
  "bit (delayQueue (advance u)) j \<longleftrightarrow> bit (delayQueue u) j \<and> nat (delayIdx u) \<noteq> j"
  "decay (advance u) = decay u" "tau (advance u) = tau u" "total_delay (advance u) = total_delay u"
  by (simp_all add: advance_def bit_simps)

text \<open>
  After \<open>k\<close> steps of a queue that holds exactly the arrival scheduled \<open>t\<close> steps ahead:
  the cursor has moved by \<open>k\<close>, and the arrival is still pending iff \<open>k \<le> t\<close>.
\<close>

lemma advance_funpow:
  assumes L: "ldelayQueue s = L"
    and d: "0 \<le> delayIdx s" "delayIdx s < L"
    and t: "0 \<le> t" "t < L"
    and k: "int k \<le> L"
    and q: "\<And>j. bit (delayQueue s) j \<longleftrightarrow> j = nat ((delayIdx s + t) mod L)"
  shows "ldelayQueue ((advance ^^ k) s) = L \<and>
         delayIdx ((advance ^^ k) s) = (delayIdx s + int k) mod L \<and>
         (\<forall>j. bit (delayQueue ((advance ^^ k) s)) j \<longleftrightarrow>
               j = nat ((delayIdx s + t) mod L) \<and> int k \<le> t)"
  using k
proof (induction k)
  case 0
  with L t d q show ?case by simp
next
  case (Suc k)
  let ?u = "(advance ^^ k) s"
  from Suc have IH: "ldelayQueue ?u = L" "delayIdx ?u = (delayIdx s + int k) mod L"
    "\<And>j. bit (delayQueue ?u) j \<longleftrightarrow> j = nat ((delayIdx s + t) mod L) \<and> int k \<le> t"
    by simp_all
  from Suc.prems have kL: "0 \<le> int k" "int k < L" by simp_all
  have step: "(advance ^^ Suc k) s = advance ?u" by simp
  have 1: "ldelayQueue (advance ?u) = L" by (simp add: advance_fields IH)
  have 2: "delayIdx (advance ?u) = (delayIdx s + int (Suc k)) mod L"
    by (simp add: advance_fields IH idx_step del: of_nat_Suc)
  have 3: "bit (delayQueue (advance ?u)) j \<longleftrightarrow> j = nat ((delayIdx s + t) mod L) \<and> int (Suc k) \<le> t" for j
    using slot_eq_iff[OF kL t, of "delayIdx s"]
    by (auto simp: advance_fields IH)
  show ?case unfolding step using 1 2 3 by blast
qed

text \<open>
  Claim C1. For every edge with \<open>0 \<le> total_delay < queueLength\<close> whose delay queue is
  empty (the cursor inside the ring, the ring inside the word, as the data model has it),
  \<open>preSpikeHit\<close> schedules the arrival without error, and in the \<open>queueLength\<close> steps that
  follow, each a due-check followed by \<open>advance\<close>, \<open>isEventDue\<close> is true on step
  \<open>total_delay\<close> and false on every other step.
\<close>

theorem preSpikeHit_due_exactly_after_total_delay:
  assumes "queue_ok s" "0 \<le> total_delay s" "total_delay s < ldelayQueue s" "delayQueue s = 0"
  shows "\<exists>s'. preSpikeHit s = Inr s' \<and>
           (\<forall>k < nat (ldelayQueue s). isEventDue ((advance ^^ k) s') \<longleftrightarrow> int k = total_delay s)"
proof -
  let ?L = "ldelayQueue s" and ?d = "delayIdx s" and ?t = "total_delay s"
  let ?p = "nat ((?d + ?t) mod ?L)"
  let ?s' = "s\<lparr>delayQueue := set_bit ?p (delayQueue s)\<rparr>"
  from assms have L: "0 < ?L" "0 \<le> ?d" "?d < ?L" "?L \<le> 32"
    by (auto simp: queue_ok_def LENGTH_OF_DELAYQUEUE_eq)
  have p: "?p < 32"
    using L pos_mod_bound[of ?L "?d + ?t"] by linarith
  have sched: "preSpikeHit s = Inr ?s'"
    using assms(4) by (simp add: preSpikeHit_def scheduleArrival_def)
  have q: "bit (delayQueue ?s') j \<longleftrightarrow> j = nat ((delayIdx ?s' + ?t) mod ?L)" for j
    using p assms(4) by (auto simp: bit_simps)
  have "isEventDue ((advance ^^ k) ?s') \<longleftrightarrow> int k = ?t" if k: "k < nat ?L" for k
  proof -
    from k have kL: "0 \<le> int k" "int k < ?L" "int k \<le> ?L" by simp_all
    have inv: "delayIdx ((advance ^^ k) ?s') = (?d + int k) mod ?L"
      "\<And>j. bit (delayQueue ((advance ^^ k) ?s')) j \<longleftrightarrow> j = ?p \<and> int k \<le> ?t"
      using advance_funpow[of ?s' ?L ?t k, OF _ _ _ assms(2,3) kL(3) q] L by simp_all
    show ?thesis
      unfolding isEventDue_def inv
      using slot_eq_iff[OF kL(1,2) assms(2,3), of ?d] by auto
  qed
  with sched show ?thesis by blast
qed

text \<open>
  The spec's scenario (queue length 4, delay 2): the arrival is scheduled in slot 2, and the
  four steps answer false, false, true, false.
\<close>

theorem preSpikeHit_due_exactly_after_total_delay_witness:
  "queue_ok scenario \<and> 0 \<le> total_delay scenario \<and> total_delay scenario < ldelayQueue scenario
   \<and> delayQueue scenario = 0
   \<and> preSpikeHit scenario = Inr (scenario\<lparr>delayQueue := 4\<rparr>)
   \<and> map (\<lambda>k. isEventDue ((advance ^^ k) (scenario\<lparr>delayQueue := 4\<rparr>))) [0, 1, 2, 3]
       = [False, False, True, False]"
proof -
  have h: "queue_ok scenario" "0 \<le> total_delay scenario"
    "total_delay scenario < ldelayQueue scenario" "delayQueue scenario = 0"
    by (simp_all add: queue_ok_def scenario_def LENGTH_OF_DELAYQUEUE_eq)
  have e: "preSpikeHit scenario = Inr (scenario\<lparr>delayQueue := 4\<rparr>)"
    by (simp add: preSpikeHit_def scheduleArrival_def scenario_def)
  from preSpikeHit_due_exactly_after_total_delay[OF h] e
  have "\<forall>k < nat (ldelayQueue scenario).
          isEventDue ((advance ^^ k) (scenario\<lparr>delayQueue := 4\<rparr>)) \<longleftrightarrow> int k = total_delay scenario"
    by auto
  then have "\<forall>k < 4. isEventDue ((advance ^^ k) (scenario\<lparr>delayQueue := 4\<rparr>)) \<longleftrightarrow> int k = 2"
    by (simp add: scenario_def)
  then have A: "\<And>k. k < 4 \<Longrightarrow>
      isEventDue ((advance ^^ k) (scenario\<lparr>delayQueue := 4\<rparr>)) \<longleftrightarrow> int k = 2"
    by blast
  have "map (\<lambda>k. isEventDue ((advance ^^ k) (scenario\<lparr>delayQueue := 4\<rparr>))) [0, 1, 2, 3]
       = [False, False, True, False]"
    using A[of 0] A[of 1] A[of 2] A[of 3] by simp
  with h e show ?thesis by simp
qed

section \<open>Static connections: what setupConnections creates\<close>

text \<open>The three loops in closed form.\<close>

lemma dest_loop_eq:
  "dest_loop layout thresh n src dest acc =
     acc @ map (\<lambda>d. \<lparr>dist_d = dist_matrix layout src d, dest_neuron = d\<rparr>)
             (filter (\<lambda>d. src \<noteq> d \<and> dist_matrix layout src d \<le> thresh) [dest..n - 1])"
proof (induction layout thresh n src dest acc rule: dest_loop.induct)
  case (1 layout thresh n src dest acc)
  note unfold = dest_loop.simps[of layout thresh n src dest acc]
  show ?case
  proof (cases "dest < n")
    case True
    then have u: "[dest..n - 1] = dest # [dest + 1..n - 1]"
      by (intro upto_rec1) simp
    show ?thesis
      unfolding unfold u using True "1.IH"[OF True] by (simp add: Let_def)
  next
    case False
    then have "[dest..n - 1] = []" by simp
    with False show ?thesis unfolding unfold by simp
  qed
qed

lemma create_loop_eq:
  "0 \<le> i \<Longrightarrow>
   create_loop layout sim_info nConns src ds i st =
     (fst st @ map (new_synapse layout sim_info src) (take (nat nConns - nat i) (drop (nat i) ds)),
      snd st + int (length (take (nat nConns - nat i) (drop (nat i) ds))))"
proof (induction layout sim_info nConns src ds i st rule: create_loop.induct)
  case (1 layout sim_info nConns src ds i st)
  note unfold = create_loop.simps[of layout sim_info nConns src ds i st]
  show ?case
  proof (cases "i < int (length ds) \<and> i < nConns")
    case True
    with "1.prems" have c: "0 \<le> i \<and> i < int (length ds) \<and> i < nConns" by simp
    from c have n: "nat i < length ds" by linarith
    from c have k: "nat nConns - nat i = Suc (nat nConns - nat (i + 1))" by linarith
    from c have i1: "nat (i + 1) = Suc (nat i)" by linarith
    have t: "take (nat nConns - nat i) (drop (nat i) ds)
               = ds ! nat i # take (nat nConns - nat (i + 1)) (drop (nat (i + 1)) ds)"
    proof -
      from n have "drop (nat i) ds = ds ! nat i # drop (Suc (nat i)) ds"
        by (simp add: Cons_nth_drop_Suc)
      then show ?thesis unfolding k i1 by simp
    qed
    from "1.prems" have p: "0 \<le> i + 1" by simp
    have "create_loop layout sim_info nConns src ds i st
          = create_loop layout sim_info nConns src ds (i + 1)
              (fst st @ [new_synapse layout sim_info src (ds ! nat i)], snd st + 1)"
      unfolding unfold using c by (simp add: Let_def new_synapse_def)
    also have "\<dots> = (fst st @ map (new_synapse layout sim_info src) (take (nat nConns - nat i) (drop (nat i) ds)),
      snd st + int (length (take (nat nConns - nat i) (drop (nat i) ds))))"
      unfolding t using "1.IH"[OF c refl refl refl p] by (simp add: new_synapse_def)
    finally show ?thesis .
  next
    case False
    then have e: "take (nat nConns - nat i) (drop (nat i) ds) = []"
      using "1.prems" by (auto simp: take_eq_Nil)
    from False have "create_loop layout sim_info nConns src ds i st = st"
      unfolding unfold by auto
    then show ?thesis unfolding e by simp
  qed
qed

lemma create_loop_0:
  "create_loop layout sim_info nConns src ds 0 st =
     (fst st @ map (new_synapse layout sim_info src) (take (nat nConns) ds),
      snd st + int (length (take (nat nConns) ds)))"
  using create_loop_eq[of 0 layout sim_info nConns src ds st] by simp

lemma src_loop_step:
  "create_loop layout sim_info (nConnsPerNeuron this) src
      (sort_key dist_d (dest_loop layout (threshConnsRadius this) (totalNeurons sim_info) src 0 [])) 0 st
    = (fst st @ created_for this sim_info layout src,
       snd st + int (length (created_for this sim_info layout src)))"
  unfolding create_loop_0 dest_loop_eq created_for_def candidates_def by simp

lemma src_loop_eq:
  "src_loop this sim_info layout src st =
     (fst st @ concat (map (created_for this sim_info layout) [src..totalNeurons sim_info - 1]),
      snd st + int (length (concat (map (created_for this sim_info layout) [src..totalNeurons sim_info - 1]))))"
proof (induction this sim_info layout src st rule: src_loop.induct)
  case (1 this sim_info layout src st)
  note unfold = src_loop.simps[of this sim_info layout src st]
  show ?case
  proof (cases "src < totalNeurons sim_info")
    case True
    then have u: "[src..totalNeurons sim_info - 1] = src # [src + 1..totalNeurons sim_info - 1]"
      by (intro upto_rec1) simp
    have "src_loop this sim_info layout src st
          = src_loop this sim_info layout (src + 1)
              (fst st @ created_for this sim_info layout src,
               snd st + int (length (created_for this sim_info layout src)))"
      unfolding unfold using True by (simp add: Let_def src_loop_step)
    also have "\<dots> = (fst st @ concat (map (created_for this sim_info layout) [src..totalNeurons sim_info - 1]),
      snd st + int (length (concat (map (created_for this sim_info layout) [src..totalNeurons sim_info - 1]))))"
      unfolding u using "1.IH"[OF True refl refl] by (simp add: src_loop_step)
    finally show ?thesis .
  next
    case False
    then have "[src..totalNeurons sim_info - 1] = []" by simp
    with False show ?thesis unfolding unfold by simp
  qed
qed

lemma synapses_added_eq:
  "synapses_added (setupConnections product_to_int this sim_info layout)
     = concat (map (created_for this sim_info layout) [0..totalNeurons sim_info - 1])"
  by (simp add: setupConnections_def Let_def src_loop_eq)

lemma added_eq:
  "added (setupConnections product_to_int this sim_info layout)
     = int (length (synapses_added (setupConnections product_to_int this sim_info layout)))"
  by (simp add: setupConnections_def Let_def src_loop_eq)

lemma created_for_src:
  "c \<in> set (created_for this sim_info layout src) \<Longrightarrow> arg_src_neuron c = src"
  by (auto simp: created_for_def new_synapse_def)

lemma created_for_dest:
  assumes "c \<in> set (created_for this sim_info layout src)"
  shows "arg_dest_neuron c \<in> set (candidates layout (threshConnsRadius this) (totalNeurons sim_info) src)"
proof -
  from assms obtain d where d: "c = new_synapse layout sim_info src d"
    "d \<in> set (take (nat (nConnsPerNeuron this))
          (sort_key dist_d
             (map (\<lambda>dest. \<lparr>dist_d = dist_matrix layout src dest, dest_neuron = dest\<rparr>)
                (candidates layout (threshConnsRadius this) (totalNeurons sim_info) src))))"
    by (auto simp: created_for_def)
  from d(2) have "d \<in> set (map (\<lambda>dest. \<lparr>dist_d = dist_matrix layout src dest, dest_neuron = dest\<rparr>)
                (candidates layout (threshConnsRadius this) (totalNeurons sim_info) src))"
    using set_take_subset by fastforce
  with d(1) show ?thesis by (auto simp: new_synapse_def)
qed

lemma length_created_for:
  "length (created_for this sim_info layout src) =
     min (nat (nConnsPerNeuron this))
         (length (candidates layout (threshConnsRadius this) (totalNeurons sim_info) src))"
  by (simp add: created_for_def min.commute)

lemma filter_concat_keyed:
  assumes "distinct xs" and "\<And>x c. c \<in> set (g x) \<Longrightarrow> f c = x"
  shows "filter (\<lambda>c. f c = s) (concat (map g xs)) = (if s \<in> set xs then g s else [])"
  using assms(1)
proof (induction xs)
  case Nil
  show ?case by simp
next
  case (Cons x xs)
  have a: "filter (\<lambda>c. f c = s) (g x) = (if x = s then g x else [])"
    using assms(2)[of _ x] by (auto simp: filter_empty_conv intro: filter_True)
  from Cons show ?case by (auto simp: a)
qed

lemma created_for_pRewiring:
  "created_for (this\<lparr>pRewiring := p\<rparr>) sim_info layout = created_for this sim_info layout"
  by (rule ext) (simp add: created_for_def)

text \<open>The line of three neurons, evaluated.\<close>

lemma line_candidates:
  "candidates line_layout 5 3 0 = [1, 2]"
  "candidates line_layout 5 3 1 = [0, 2]"
  "candidates line_layout 5 3 2 = [0, 1]"
  by (simp_all add: candidates_def line_layout_def upto_rec1)

lemma line_synapses:
  "synapses_added (setupConnections exact_product_to_int line_conn line_sim line_layout)
     = [\<lparr>arg_type = (), arg_src_neuron = 0, arg_dest_neuron = 1, arg_sum_point = 1, arg_deltaT = 1\<rparr>,
        \<lparr>arg_type = (), arg_src_neuron = 1, arg_dest_neuron = 0, arg_sum_point = 0, arg_deltaT = 1\<rparr>,
        \<lparr>arg_type = (), arg_src_neuron = 2, arg_dest_neuron = 1, arg_sum_point = 1, arg_deltaT = 1\<rparr>]"
proof -
  have u: "[0..totalNeurons line_sim - 1] = [0, 1, 2]"
    by (simp add: line_sim_def upto_rec1)
  have c: "created_for line_conn line_sim line_layout 0
             = [\<lparr>arg_type = (), arg_src_neuron = 0, arg_dest_neuron = 1, arg_sum_point = 1, arg_deltaT = 1\<rparr>]"
       "created_for line_conn line_sim line_layout 1
             = [\<lparr>arg_type = (), arg_src_neuron = 1, arg_dest_neuron = 0, arg_sum_point = 0, arg_deltaT = 1\<rparr>]"
       "created_for line_conn line_sim line_layout 2
             = [\<lparr>arg_type = (), arg_src_neuron = 2, arg_dest_neuron = 1, arg_sum_point = 1, arg_deltaT = 1\<rparr>]"
    by (simp_all add: created_for_def line_conn_def line_sim_def line_candidates new_synapse_def)
       (simp_all add: line_layout_def)
  show ?thesis unfolding synapses_added_eq u by (simp add: c)
qed

text \<open>
  Claim C2. For every source neuron, the \<^verbatim>\<open>addSynapse\<close> calls of \<^verbatim>\<open>setupConnections\<close>
  whose source is that neuron number the minimum of \<^verbatim>\<open>nConnsPerNeuron\<close> and the number of
  candidate destinations within the radius (none for an index that is no neuron); with a
  non-negative \<^verbatim>\<open>nConnsPerNeuron\<close>, as \<^verbatim>\<open>readParameters\<close> and the constructor leave
  it, no source owns more edges than \<^verbatim>\<open>nConnsPerNeuron\<close>.
\<close>

theorem setupConnections_at_most_nConnsPerNeuron:
  "length (filter (\<lambda>c. arg_src_neuron c = src) (synapses_added (setupConnections product_to_int this sim_info layout)))
     = (if 0 \<le> src \<and> src < totalNeurons sim_info
        then min (nat (nConnsPerNeuron this))
                 (length (candidates layout (threshConnsRadius this) (totalNeurons sim_info) src))
        else 0)
   \<and> (0 \<le> nConnsPerNeuron this \<longrightarrow>
        int (length (filter (\<lambda>c. arg_src_neuron c = src)
               (synapses_added (setupConnections product_to_int this sim_info layout)))) \<le> nConnsPerNeuron this)"
proof -
  have "filter (\<lambda>c. arg_src_neuron c = src) (synapses_added (setupConnections product_to_int this sim_info layout))
        = (if src \<in> set [0..totalNeurons sim_info - 1] then created_for this sim_info layout src else [])"
    unfolding synapses_added_eq
    by (rule filter_concat_keyed) (simp_all add: created_for_src)
  then show ?thesis by (auto simp: length_created_for)
qed

text \<open>
  On the line of three neurons with at most one connection each, neuron 0 has the two
  candidates 1 and 2 and gets exactly one synapse.
\<close>

theorem setupConnections_at_most_nConnsPerNeuron_witness:
  "0 \<le> nConnsPerNeuron line_conn
   \<and> candidates line_layout (threshConnsRadius line_conn) (totalNeurons line_sim) 0 = [1, 2]
   \<and> length (filter (\<lambda>c. arg_src_neuron c = 0)
        (synapses_added (setupConnections exact_product_to_int line_conn line_sim line_layout))) = 1
   \<and> int (length (filter (\<lambda>c. arg_src_neuron c = 0)
        (synapses_added (setupConnections exact_product_to_int line_conn line_sim line_layout)))) \<le> nConnsPerNeuron line_conn"
proof -
  have h: "0 \<le> nConnsPerNeuron line_conn" by (simp add: line_conn_def)
  have c: "candidates line_layout (threshConnsRadius line_conn) (totalNeurons line_sim) 0 = [1, 2]"
    by (simp add: line_conn_def line_sim_def line_candidates)
  from setupConnections_at_most_nConnsPerNeuron[of 0 exact_product_to_int line_conn line_sim line_layout] h c
  show ?thesis by (simp add: line_conn_def line_sim_def)
qed

text \<open>
  Claim C3. \<^verbatim>\<open>setupConnections\<close> computes \<^verbatim>\<open>nRewiring = added * pRewiring\<close> and does
  nothing with it: whatever the value of \<^verbatim>\<open>pRewiring\<close>, and however the product is
  rounded and converted, the calls made on the synapse store are exactly those of the
  per-source selection loop, and \<^verbatim>\<open>added\<close> counts them.
\<close>

theorem setupConnections_rewiring_not_applied:
  "synapses_added (setupConnections product_to_int (this\<lparr>pRewiring := p\<rparr>) sim_info layout)
     = fst (src_loop this sim_info layout 0 ([], 0))
   \<and> added (setupConnections product_to_int (this\<lparr>pRewiring := p\<rparr>) sim_info layout)
     = int (length (fst (src_loop this sim_info layout 0 ([], 0))))"
  by (simp add: setupConnections_def Let_def src_loop_eq created_for_pRewiring)

text \<open>
  On the line of three neurons the same three synapses are created for \<^verbatim>\<open>pRewiring\<close> 0,
  1/2 and 1, while the count computed from them is 0, 1 and 3.
\<close>

theorem setupConnections_rewiring_not_applied_witness:
  "synapses_added (setupConnections exact_product_to_int (line_conn\<lparr>pRewiring := 1\<rparr>) line_sim line_layout)
     = synapses_added (setupConnections exact_product_to_int (line_conn\<lparr>pRewiring := 0\<rparr>) line_sim line_layout)
   \<and> synapses_added (setupConnections exact_product_to_int (line_conn\<lparr>pRewiring := 1 / 2\<rparr>) line_sim line_layout)
     = synapses_added (setupConnections exact_product_to_int (line_conn\<lparr>pRewiring := 0\<rparr>) line_sim line_layout)
   \<and> added (setupConnections exact_product_to_int (line_conn\<lparr>pRewiring := 1\<rparr>) line_sim line_layout) = 3
   \<and> nRewiring (setupConnections exact_product_to_int (line_conn\<lparr>pRewiring := 0\<rparr>) line_sim line_layout) = 0
   \<and> nRewiring (setupConnections exact_product_to_int (line_conn\<lparr>pRewiring := 1 / 2\<rparr>) line_sim line_layout) = 1
   \<and> nRewiring (setupConnections exact_product_to_int (line_conn\<lparr>pRewiring := 1\<rparr>) line_sim line_layout) = 3"
proof -
  have l: "fst (src_loop line_conn line_sim line_layout 0 ([], 0))
           = synapses_added (setupConnections exact_product_to_int line_conn line_sim line_layout)"
    by (simp add: setupConnections_def Let_def)
  note r = setupConnections_rewiring_not_applied[where product_to_int = exact_product_to_int
      and this = line_conn and sim_info = line_sim and layout = line_layout,
      unfolded l line_synapses]
  have n: "nRewiring (setupConnections exact_product_to_int (line_conn\<lparr>pRewiring := q\<rparr>) line_sim line_layout)
           = exact_product_to_int
               (added (setupConnections exact_product_to_int (line_conn\<lparr>pRewiring := q\<rparr>) line_sim line_layout)) q"
    for q
    by (simp add: setupConnections_def Let_def)
  show ?thesis
    using r[where p = 1] r[where p = 0] r[where p = "1 / 2"]
    by (simp add: n exact_product_to_int_def)
qed

text \<open>
  Claim C10. \<^verbatim>\<open>setupConnections\<close> never creates a self-edge: in every \<^verbatim>\<open>addSynapse\<close>
  call it makes, the source neuron differs from the destination neuron.
\<close>

theorem setupConnections_no_self_edge:
  "\<forall>c \<in> set (synapses_added (setupConnections product_to_int this sim_info layout)).
     arg_src_neuron c \<noteq> arg_dest_neuron c"
proof
  fix c assume "c \<in> set (synapses_added (setupConnections product_to_int this sim_info layout))"
  then obtain src where c: "c \<in> set (created_for this sim_info layout src)"
    by (auto simp: synapses_added_eq)
  from created_for_dest[OF c] created_for_src[OF c] show "arg_src_neuron c \<noteq> arg_dest_neuron c"
    by (auto simp: candidates_def)
qed

text \<open>
  On the line of three neurons the synapses are 0 to 1, 1 to 0 and 2 to 1, none of them a
  self-edge.
\<close>

theorem setupConnections_no_self_edge_witness:
  "map (\<lambda>c. (arg_src_neuron c, arg_dest_neuron c))
      (synapses_added (setupConnections exact_product_to_int line_conn line_sim line_layout)) = [(0, 1), (1, 0), (2, 1)]
   \<and> list_all (\<lambda>c. arg_src_neuron c \<noteq> arg_dest_neuron c)
        (synapses_added (setupConnections exact_product_to_int line_conn line_sim line_layout))"
proof -
  from setupConnections_no_self_edge[of exact_product_to_int line_conn line_sim line_layout]
  have "list_all (\<lambda>c. arg_src_neuron c \<noteq> arg_dest_neuron c)
        (synapses_added (setupConnections exact_product_to_int line_conn line_sim line_layout))"
    unfolding list_all_iff .
  then show ?thesis by (simp add: line_synapses)
qed

section \<open>Static connections: reading the parameters\<close>

text \<open>
  Claim C4. \<^verbatim>\<open>readParameters\<close> throws a \<^verbatim>\<open>ParseParamError\<close> if and only if the element
  is named \<^verbatim>\<open>ConnectionsParams\<close> and one of the three parameters is missing (its query
  does not succeed) or out of range: \<^verbatim>\<open>nConnsPerNeuron\<close> missing or negative,
  \<^verbatim>\<open>threshConnsRadius\<close> missing or negative, \<^verbatim>\<open>pRewiring\<close> missing, negative or above 1.
  Whenever it does not throw it returns true; for an element of another name it validates
  nothing, changes nothing and returns true.
\<close>

theorem readParameters_throws_iff_invalid:
  "((\<exists>e. snd (readParameters element this) = Inl e) \<longleftrightarrow>
      ValueStr element = ''ConnectionsParams'' \<and>
      (QueryIntAttribute element ''nConnsPerNeuron'' = None
       \<or> (\<exists>n. QueryIntAttribute element ''nConnsPerNeuron'' = Some n \<and> n < 0)
       \<or> QueryFLOATAttribute element ''threshConnsRadius'' = None
       \<or> (\<exists>r. QueryFLOATAttribute element ''threshConnsRadius'' = Some r \<and> r < 0)
       \<or> QueryFLOATAttribute element ''pRewiring'' = None
       \<or> (\<exists>p. QueryFLOATAttribute element ''pRewiring'' = Some p \<and> (p < 0 \<or> p > 1.0))))
   \<and> ((\<forall>e. snd (readParameters element this) \<noteq> Inl e) \<longrightarrow>
          snd (readParameters element this) = Inr True)
   \<and> (ValueStr element \<noteq> ''ConnectionsParams'' \<longrightarrow>
          readParameters element this = (this, Inr True))"
  by (auto simp: readParameters_def Let_def split: option.splits)

text \<open>
  The element of the line of three neurons is accepted and sets the three members; the same
  element with \<^verbatim>\<open>nConnsPerNeuron = -1\<close> is rejected; an element of another name passes
  unread.
\<close>

theorem readParameters_throws_iff_invalid_witness:
  "readParameters line_element ConnStatic_new = (line_conn, Inr True)
   \<and> (\<exists>e. snd (readParameters (line_element\<lparr>QueryIntAttribute := (\<lambda>name. Some (- 1))\<rparr>)
                ConnStatic_new) = Inl e)
   \<and> readParameters (line_element\<lparr>ValueStr := ''LayoutParams''\<rparr>) ConnStatic_new
       = (ConnStatic_new, Inr True)"
proof -
  note t = readParameters_throws_iff_invalid
  have good: "\<forall>e. snd (readParameters line_element ConnStatic_new) \<noteq> Inl e"
    using t[of line_element ConnStatic_new, THEN conjunct1]
    by (auto simp: line_element_def)
  with t[of line_element ConnStatic_new, THEN conjunct2, THEN conjunct1]
  have "snd (readParameters line_element ConnStatic_new) = Inr True" by blast
  moreover have "fst (readParameters line_element ConnStatic_new) = line_conn"
    by (simp add: readParameters_def line_element_def ConnStatic_new_def line_conn_def)
  ultimately have 1: "readParameters line_element ConnStatic_new = (line_conn, Inr True)"
    by (simp add: prod_eq_iff)
  have 2: "\<exists>e. snd (readParameters (line_element\<lparr>QueryIntAttribute := (\<lambda>name. Some (- 1))\<rparr>)
                ConnStatic_new) = Inl e"
    using t[of "line_element\<lparr>QueryIntAttribute := (\<lambda>name. Some (- 1))\<rparr>" ConnStatic_new, THEN conjunct1]
    by (simp add: line_element_def)
  have 3: "readParameters (line_element\<lparr>ValueStr := ''LayoutParams''\<rparr>) ConnStatic_new
       = (ConnStatic_new, Inr True)"
    using t[of "line_element\<lparr>ValueStr := ''LayoutParams''\<rparr>" ConnStatic_new, THEN conjunct2, THEN conjunct2]
    by (simp add: line_element_def)
  from 1 2 3 show ?thesis by blast
qed

section \<open>Decay and reset\<close>

text \<open>
  Claim C5. \<^verbatim>\<open>updateDecay(iSyn, deltaT)\<close> returns false when the time constant \<^verbatim>\<open>tau\<close>
  of the edge is not positive, leaving the edge as it is, and returns true when
  \<^verbatim>\<open>tau > 0\<close>, in which case the decay of the edge is recomputed.
\<close>

theorem updateDecay_fails_iff_tau_not_positive:
  "(tau s \<le> 0 \<longrightarrow> updateDecay dt s = (False, s)) \<and>
   (tau s > 0 \<longrightarrow> updateDecay dt s = (True, s\<lparr>decay := exp (- dt / tau s)\<rparr>))"
  by (simp add: updateDecay_def)

text \<open>With \<^verbatim>\<open>tau = 10\<close> and \<^verbatim>\<open>deltaT = 1\<close> the decay becomes \<open>exp (-1/10)\<close>; with \<^verbatim>\<open>tau = 0\<close> the call fails.\<close>

theorem updateDecay_fails_iff_tau_not_positive_witness:
  "updateDecay 1 scenario = (True, scenario\<lparr>decay := exp (- 1 / 10)\<rparr>)
   \<and> updateDecay 1 (scenario\<lparr>tau := 0\<rparr>) = (False, scenario\<lparr>tau := 0\<rparr>)"
proof -
  have a: "tau scenario > 0" and b: "tau (scenario\<lparr>tau := 0\<rparr>) \<le> 0"
    by (simp_all add: scenario_def)
  from updateDecay_fails_iff_tau_not_positive[of scenario 1, THEN conjunct2, rule_format, OF a]
    updateDecay_fails_iff_tau_not_positive[of "scenario\<lparr>tau := 0\<rparr>" 1, THEN conjunct1, rule_format, OF b]
  show ?thesis by (simp add: scenario_def)
qed

text \<open>
  Claim C6. \<^verbatim>\<open>preSpikeHit\<close> on an edge whose delay-queue bit at slot
  \<^verbatim>\<open>(delayIndex + total_delay) mod queueLength\<close> is already set is flagged as an overrun
  error: no updated edge comes back, so the pending arrival is not silently set again.
\<close>

theorem preSpikeHit_on_filled_slot_is_overrun:
  "bit (delayQueue s) (nat ((delayIdx s + total_delay s) mod ldelayQueue s))
     \<Longrightarrow> preSpikeHit s = Inl Overrun"
  by (simp add: preSpikeHit_def scheduleArrival_def)

text \<open>In the spec's scenario a second \<^verbatim>\<open>preSpikeHit\<close> in the same step hits the filled slot 2.\<close>

theorem preSpikeHit_on_filled_slot_is_overrun_witness:
  "preSpikeHit scenario = Inr (scenario\<lparr>delayQueue := 4\<rparr>)
   \<and> bit (delayQueue (scenario\<lparr>delayQueue := 4\<rparr>)) 2
   \<and> preSpikeHit (scenario\<lparr>delayQueue := 4\<rparr>) = Inl Overrun"
proof -
  have e: "preSpikeHit scenario = Inr (scenario\<lparr>delayQueue := 4\<rparr>)"
    by (simp add: preSpikeHit_def scheduleArrival_def scenario_def)
  have b: "bit (delayQueue (scenario\<lparr>delayQueue := 4\<rparr>)) 2"
    by simp
  have "bit (delayQueue (scenario\<lparr>delayQueue := 4\<rparr>))
          (nat ((delayIdx (scenario\<lparr>delayQueue := 4\<rparr>) + total_delay (scenario\<lparr>delayQueue := 4\<rparr>))
                 mod ldelayQueue (scenario\<lparr>delayQueue := 4\<rparr>)))"
    using b by (simp add: scenario_def)
  from preSpikeHit_on_filled_slot_is_overrun[OF this] e b show ?thesis by blast
qed

text \<open>
  Claim C7. For an edge with \<^verbatim>\<open>tau > 0\<close> and any step size, \<^verbatim>\<open>resetSynapse\<close> succeeds, a
  second \<^verbatim>\<open>resetSynapse\<close> right after it succeeds too, and the decay after the second call
  equals the decay after the first.
\<close>

theorem resetSynapse_twice_same_decay:
  "tau s > 0 \<Longrightarrow>
     \<exists>s1 s2. resetSynapse dt s = Inr s1 \<and> resetSynapse dt s1 = Inr s2 \<and> decay s2 = decay s1"
  by (simp add: resetSynapse_def updateDecay_def initSpikeQueue_def)

text \<open>The scenario's edge has \<^verbatim>\<open>tau = 10\<close>; its reset gives the decay \<open>exp (-1/10)\<close>.\<close>

theorem resetSynapse_twice_same_decay_witness:
  "0 < tau scenario
   \<and> (\<exists>s1 s2. resetSynapse 1 scenario = Inr s1 \<and> resetSynapse 1 s1 = Inr s2 \<and> decay s2 = decay s1)
   \<and> resetSynapse 1 scenario = Inr (scenario\<lparr>decay := exp (- 1 / 10)\<rparr>)"
proof -
  have h: "0 < tau scenario" by (simp add: scenario_def)
  have "resetSynapse 1 scenario = Inr (scenario\<lparr>decay := exp (- 1 / 10)\<rparr>)"
    by (simp add: resetSynapse_def updateDecay_def initSpikeQueue_def scenario_def)
  with h resetSynapse_twice_same_decay[OF h, of 1] show ?thesis by blast
qed

end
